theory Spec2Isabelle
  imports Complex_Main
begin

section \<open>Python text primitives\<close>

text \<open>
  \<open>sep.join(parts)\<close> of Python: the parts with \<open>sep\<close> between neighbours, nothing
  before the first part and nothing after the last one.
\<close>

fun join :: "string \<Rightarrow> string list \<Rightarrow> string" where
  "join sep [] = []"
| "join sep [x] = x"
| "join sep (x # y # ys) = x @ sep @ join sep (y # ys)"

text \<open>\<open>str(n)\<close> of a Python integer: decimal digits, a minus sign when negative.\<close>

definition digit_char :: "nat \<Rightarrow> char" where
  "digit_char d = ''0123456789'' ! d"

fun str_nat :: "nat \<Rightarrow> string" where
  "str_nat n = (if n < 10 then [digit_char n] else str_nat (n div 10) @ [digit_char (n mod 10)])"

declare str_nat.simps [simp del]

definition str_int :: "int \<Rightarrow> string" where
  "str_int i = (if i < 0 then ''-'' @ str_nat (nat (- i)) else str_nat (nat i))"

section \<open>Structured fields (generate.py, lines 115--168)\<close>

text \<open>
  The classes \<open>HTTPDecimalField\<close>, \<open>HTTPStringField\<close>, \<open>HTTPListField\<close>,
  \<open>HTTPBooleanField\<close>, \<open>HTTPParameterField\<close> and \<open>HTTPParametersField\<close> all implement the
  protocol \<open>HTTPStructuredField\<close>; together they are one datatype, one constructor per
  class. The payload of a decimal field is a Python float, kept abstract as \<open>'f\<close>.
  A parameters field is a \<open>dict\<close>; its payload here is the list of its items in
  insertion order.

  The datatype follows the bodies of the classes as written. Whether the interpreter
  accepts the class statements themselves is a separate question, modelled below
  (\<open>class_statement\<close>): the one that defines \<open>HTTPBooleanField\<close> is refused. The constructor
  \<open>HTTPBooleanField\<close> stands for the truth value the other classes are written to
  receive (the \<open>isinstance\<close> test of \<open>HTTPParameterField\<close>, the keyword arguments of
  \<open>run\<close>).
\<close>

datatype 'f HTTPStructuredField =
    HTTPDecimalField 'f
  | HTTPStringField string
  | HTTPListField "'f HTTPStructuredField list"
  | HTTPBooleanField bool
  | HTTPParameterField string "'f HTTPStructuredField"
  | HTTPParametersField "(string \<times> 'f HTTPStructuredField) list"

text \<open>
  The property \<open>serialized\<close> of each class. The first argument is Python's rendering of
  a float by an f-string with an empty format (\<open>f"{self}"\<close>). The test of
  \<open>HTTPParameterField.serialized\<close>,
  \<open>isinstance(value, HTTPBooleanField) and (value == True)\<close>, holds exactly for the
  value \<open>HTTPBooleanField True\<close>.
\<close>

function serialized :: "('f \<Rightarrow> string) \<Rightarrow> 'f HTTPStructuredField \<Rightarrow> string" where
  "serialized fstr (HTTPDecimalField d) = fstr d"
| "serialized fstr (HTTPStringField s) = ''\"'' @ s @ ''\"''"
| "serialized fstr (HTTPListField xs) = join '','' (map (serialized fstr) xs)"
| "serialized fstr (HTTPBooleanField b) = ''?'' @ (if b then ''1'' else ''0'')"
| "serialized fstr (HTTPParameterField key v) =
     (if v = HTTPBooleanField True then key
      else key @ ''='' @ serialized fstr v)"
| "serialized fstr (HTTPParametersField items) =
     join '';'' (map (\<lambda>each. serialized fstr (HTTPParameterField (fst each) (snd each))) items)"
  by pat_completeness auto
termination
  by lexicographic_order

text \<open>
  \<open>serialized_server_timing_metrics_from\<close> (line 165) only reads the property.
\<close>

definition serialized_server_timing_metrics_from ::
    "('f \<Rightarrow> string) \<Rightarrow> 'f HTTPStructuredField \<Rightarrow> string" where
  "serialized_server_timing_metrics_from fstr given_metrics = serialized fstr given_metrics"

subsection \<open>The class statements (lines 121--156)\<close>

text \<open>
  Each structured-field class names the protocol and one built-in type as its bases
  (\<open>list[...]\<close>, \<open>tuple[...]\<close> and \<open>dict[...]\<close> stand for \<open>list\<close>, \<open>tuple\<close> and \<open>dict\<close>).
  Executing a class statement creates the class, which CPython refuses with
  \<open>TypeError: type 'bool' is not an acceptable base type\<close> when a base is \<open>bool\<close>: of the
  built-in types used here, \<open>bool\<close> alone cannot be subclassed. Loading the module
  executes the statements in source order and stops at the first one that raises.
\<close>

datatype base_type =
    HTTPStructuredField_protocol | float_type | str_type | list_type | bool_type
  | tuple_type | dict_type

definition acceptable_base_type :: "base_type \<Rightarrow> bool" where
  "acceptable_base_type b = (b \<noteq> bool_type)"

datatype py_error = TypeError_not_an_acceptable_base_type base_type

fun class_statement :: "base_type list \<Rightarrow> py_error + unit" where
  "class_statement [] = Inr ()"
| "class_statement (b # bases) =
     (if acceptable_base_type b then class_statement bases
      else Inl (TypeError_not_an_acceptable_base_type b))"

definition structured_field_classes :: "(string \<times> base_type list) list" where
  "structured_field_classes =
     [(''HTTPDecimalField'', [HTTPStructuredField_protocol, float_type]),
      (''HTTPStringField'', [HTTPStructuredField_protocol, str_type]),
      (''HTTPListField'', [HTTPStructuredField_protocol, list_type]),
      (''HTTPBooleanField'', [HTTPStructuredField_protocol, bool_type]),
      (''HTTPParameterField'', [HTTPStructuredField_protocol, tuple_type]),
      (''HTTPParametersField'', [HTTPStructuredField_protocol, dict_type])]"

fun load_classes ::
    "(string \<times> base_type list) list \<Rightarrow> string list \<Rightarrow> (string \<times> py_error) + string list" where
  "load_classes [] defined = Inr defined"
| "load_classes ((class_name, bases) # statements) defined =
     (case class_statement bases of
        Inl e \<Rightarrow> Inl (class_name, e)
      | Inr _ \<Rightarrow> load_classes statements (defined @ [class_name]))"

subsection \<open>Dictionaries\<close>

text \<open>
  \<open>HTTPParametersField\<close> inherits its storage and its constructor from \<open>dict\<close>. A Python
  dictionary keeps one entry per key, in the order of first insertion; storing under a
  key already present replaces the value and keeps the entry's place. \<open>dict_of\<close> is
  the constructor applied to a sequence of entries (or to keyword arguments, in the order
  written).
\<close>

fun dict_setitem :: "'k \<Rightarrow> 'v \<Rightarrow> ('k \<times> 'v) list \<Rightarrow> ('k \<times> 'v) list" where
  "dict_setitem k v [] = [(k, v)]"
| "dict_setitem k v ((k', v') # d) =
     (if k' = k then (k', v) # d else (k', v') # dict_setitem k v d)"

definition dict_of :: "('k \<times> 'v) list \<Rightarrow> ('k \<times> 'v) list" where
  "dict_of entries = foldl (\<lambda>d each. dict_setitem (fst each) (snd each) d) [] entries"

subsection \<open>The legacy metric record (lines 98--112)\<close>

record 'f ServerTimingMetric =
  name :: string
  description :: string
  duration_in_milliseconds :: 'f


subsection \<open>Floats with an integer value\<close>

text \<open>
  Python renders a float whose value is an integer \<open>n\<close> with \<open>\<bar>n\<bar> \<le> 2 ^ 53\<close> as the
  digits of \<open>n\<close> followed by \<open>.0\<close> (\<open>f"{float(0)}"\<close> is \<open>0.0\<close>); every such integer is a
  float, and \<open>HTTPDecimalField(n)\<close> converts the integer literal \<open>n\<close> to it. This fragment
  of the floats, each float named by its integer value, is enough to evaluate the
  serializer on the literals of the source.
\<close>

definition float_str_integral :: "int \<Rightarrow> string" where
  "float_str_integral n = str_int n @ ''.0''"

section \<open>Collaborators outside the file\<close>

text \<open>
  \<open>generate.py\<close> calls functions and reads values it imports or inherits. They are
  parameters of the model, one record for all of them:
  \<^item> \<open>truthy\<close>: the truth value Python gives a response image that is present
    (\<open>if exec.response_image\<close>);
  \<^item> \<open>png_from\<close> and \<open>JSONResponse\<close>: the encoder and the response constructor, either of
    which may raise;
  \<^item> \<open>total_seconds t1 t0\<close>: \<open>(t1 - t0).total_seconds()\<close> of two clock readings;
  \<^item> \<open>float_div\<close>, \<open>float_of_int\<close>, \<open>float_str\<close>: float division, \<open>float(n)\<close> and the
    rendering of a float by an f-string;
  \<^item> \<open>MILLI\<close>: the value of \<open>MetricPrefix.MILLI\<close>, the float \<open>10 ** (-3)\<close>.
\<close>

record ('t, 'f, 'img, 'png, 'resp, 'e) externals =
  truthy :: "'img \<Rightarrow> bool"
  png_from :: "'img \<Rightarrow> 'e + 'png"
  JSONResponse :: "(string \<times> 'png list) list \<Rightarrow> (string \<times> string) list \<Rightarrow> string \<Rightarrow> 'e + 'resp"
  total_seconds :: "'t \<Rightarrow> 't \<Rightarrow> 'f"
  float_div :: "'f \<Rightarrow> 'f \<Rightarrow> 'f"
  float_of_int :: "int \<Rightarrow> 'f"
  float_str :: "'f \<Rightarrow> string"
  MILLI :: 'f

text \<open>
  An exception in flight: the \<open>Exception(message)\<close> that \<open>generate.py\<close> raises itself, or
  one raised by a collaborator.
\<close>

datatype 'e exn = Exception string | External 'e

definition milliseconds_from :: "('t, 'f, 'img, 'png, 'resp, 'e) externals \<Rightarrow> 'f \<Rightarrow> 'f" where
  "milliseconds_from ext seconds = float_div ext seconds (MILLI ext)"

text \<open>
  Modelled from the spec: the responder (\<open>FastAPIResponder\<close>, imported from
  \<open>shortfin.interop.fastapi\<close>) is not part of the file. The spec's outbound interface
  gives \<open>send\<close>, which delivers a response to the sink, and \<open>ensureFinalized\<close>, which is
  a no-op if a response was already sent and delivers a failure response otherwise.
  \<open>calls\<close> records what \<open>run\<close> invoked, \<open>sink\<close> what the client receives.
\<close>

datatype 'resp call = SendResponse 'resp | EnsureResponse

datatype 'resp delivery = Delivered 'resp | ErrorResponse

record 'resp FastAPIResponder =
  calls :: "'resp call list"
  sink :: "'resp delivery list"

definition new_responder :: "'resp FastAPIResponder" where
  "new_responder = \<lparr>calls = [], sink = []\<rparr>"

definition send_response :: "'resp \<Rightarrow> 'resp FastAPIResponder \<Rightarrow> 'resp FastAPIResponder" where
  "send_response r R = R\<lparr>calls := calls R @ [SendResponse r], sink := sink R @ [Delivered r]\<rparr>"

definition ensure_response :: "'resp FastAPIResponder \<Rightarrow> 'resp FastAPIResponder" where
  "ensure_response R =
     R\<lparr>calls := calls R @ [EnsureResponse],
       sink := (if sink R = [] then [ErrorResponse] else sink R)\<rparr>"

section \<open>One image: \<open>GenerateImageProcess\<close> (lines 45--76)\<close>

datatype 'img TextToImageInferenceOutput = TextToImageInferenceOutput (image: 'img)

text \<open>
  The fields \<open>index\<close> and \<open>output\<close> of the class (\<open>output\<close> is a keyword of Isabelle,
  hence the prime), and whether the process has run to its end, which is what
  \<open>asyncio.gather\<close> waits for.
\<close>

record 'img GenerateImageProcess =
  index :: nat
  output' :: "'img TextToImageInferenceOutput option"
  finished :: bool

definition GenerateImageProcess_init :: "nat \<Rightarrow> 'img GenerateImageProcess" where
  "GenerateImageProcess_init i = \<lparr>index = i, output' = None, finished = False\<rparr>"

text \<open>
  \<open>run\<close> after \<open>await exec.done\<close>: the argument is \<open>exec.response_image\<close> as the batcher
  left it, \<open>None\<close> or an image.
\<close>

definition GenerateImageProcess_run ::
    "('t, 'f, 'img, 'png, 'resp, 'e) externals \<Rightarrow> 'img option \<Rightarrow>
     'img GenerateImageProcess \<Rightarrow> 'img GenerateImageProcess" where
  "GenerateImageProcess_run ext response_image p =
     p\<lparr>output' :=
         (case response_image of
            None \<Rightarrow> None
          | Some img \<Rightarrow> if truthy ext img then Some (TextToImageInferenceOutput img) else None),
       finished := True\<rparr>"

section \<open>One batch: \<open>ClientGenerateBatchProcess.run\<close> (lines 202--276)\<close>

record GenerateReqInput =
  num_output_images :: int

text \<open>The loop of lines 221--228, with the counter of \<open>enumerate\<close> and the list built so far.\<close>

fun assemble ::
    "('t, 'f, 'img, 'png, 'resp, 'e) externals \<Rightarrow> nat \<Rightarrow> 'img GenerateImageProcess list \<Rightarrow>
     'png list \<Rightarrow> 'e exn + 'png list" where
  "assemble ext index_of_each_process [] png_images = Inr png_images"
| "assemble ext index_of_each_process (each_process # rest) png_images =
     (case output' each_process of
        None \<Rightarrow>
          Inl (Exception (''Expected output for process '' @ str_nat index_of_each_process
                          @ '' but got `None`''))
      | Some out \<Rightarrow>
          (case png_from ext (image out) of
             Inl e \<Rightarrow> Inl (External e)
           | Inr each_png_image \<Rightarrow>
               assemble ext (Suc index_of_each_process) rest (png_images @ [each_png_image])))"

text \<open>Lines 240--262, for a measured duration \<open>d\<close>.\<close>

definition server_timing_metrics ::
    "('t, 'f, 'img, 'png, 'resp, 'e) externals \<Rightarrow> 'f \<Rightarrow> 'f HTTPStructuredField" where
  "server_timing_metrics ext d =
     HTTPListField
       [HTTPParametersField (dict_of
          [(''pre'', HTTPBooleanField True),
           (''desc'', HTTPStringField ''Batch Pre-processing''),
           (''dur'', HTTPDecimalField (float_of_int ext 0))]),
        HTTPParametersField (dict_of
          [(''infer'', HTTPBooleanField True),
           (''desc'', HTTPStringField ''Batch Inference''),
           (''dur'', HTTPDecimalField d)]),
        HTTPParametersField (dict_of
          [(''post'', HTTPBooleanField True),
           (''desc'', HTTPStringField ''Batch Post-processing''),
           (''dur'', HTTPDecimalField d)])]"

text \<open>
  The body of the \<open>try\<close> after the \<open>await\<close> (lines 216--274): the responder afterwards
  and the exception that leaves the block, if any.
\<close>

definition respond ::
    "('t, 'f, 'img, 'png, 'resp, 'e) externals \<Rightarrow> 't \<Rightarrow> 't \<Rightarrow> 'img GenerateImageProcess list \<Rightarrow>
     'resp FastAPIResponder \<Rightarrow> 'resp FastAPIResponder \<times> 'e exn option" where
  "respond ext interval_start interval_end gen_processes R =
     (case assemble ext 0 gen_processes [] of
        Inl e \<Rightarrow> (R, Some e)
      | Inr png_images \<Rightarrow>
          (let duration_in_milliseconds =
                 milliseconds_from ext (total_seconds ext interval_end interval_start)
           in case JSONResponse ext
                     [(''images'', png_images)]
                     [(''Server-Timing'',
                       serialized (float_str ext)
                         (server_timing_metrics ext duration_in_milliseconds))]
                     ''application/json'' of
                Inl e \<Rightarrow> (R, Some (External e))
              | Inr r \<Rightarrow> (send_response r R, None)))"

text \<open>The \<open>finally\<close> clause (lines 275--276) runs whatever left the \<open>try\<close>.\<close>

definition respond_finally ::
    "('t, 'f, 'img, 'png, 'resp, 'e) externals \<Rightarrow> 't \<Rightarrow> 't \<Rightarrow> 'img GenerateImageProcess list \<Rightarrow>
     'resp FastAPIResponder \<Rightarrow> 'resp FastAPIResponder \<times> 'e exn option" where
  "respond_finally ext interval_start interval_end gen_processes R =
     (case respond ext interval_start interval_end gen_processes R of
        (R', raised) \<Rightarrow> (ensure_response R', raised))"

subsection \<open>The batch on the cooperative scheduler\<close>

text \<open>
  \<open>run\<close> suspends once, at \<open>await asyncio.gather(*gen_processes)\<close>; each item process
  suspends once, at \<open>await exec.done\<close>. Between suspensions code runs without
  interleaving. The state is where \<open>run\<close> stands (with the clock reading it took at the
  start while it is suspended), the processes it launched and the responder.
\<close>

datatype ('t, 'e) pc = NotStarted | AwaitingGather 't | Returned | Raised "'e exn"

record ('t, 'img, 'resp, 'e) state =
  pc :: "('t, 'e) pc"
  gen_processes :: "'img GenerateImageProcess list"
  responder :: "'resp FastAPIResponder"

definition initial :: "('t, 'img, 'resp, 'e) state" where
  "initial = \<lparr>pc = NotStarted, gen_processes = [], responder = new_responder\<rparr>"

text \<open>
  What the scheduler and the batcher can do:
  \<^item> \<open>Start t0\<close>: \<open>run\<close> begins with the clock at \<open>t0\<close>, launches one process for each
    index of \<open>range(num_output_images)\<close> and suspends at the \<open>gather\<close>;
  \<^item> \<open>Complete i response_image\<close>: the batcher fires \<open>exec.done\<close> of the request built
    for index \<open>i\<close>, having left \<open>response_image\<close> in it; process \<open>i\<close> resumes and runs to
    its end (the signal fires once, so a second completion of the same index does
    nothing);
  \<^item> \<open>Resume t1\<close>: \<open>gather\<close> returns, which it can only do when every process has
    finished; \<open>run\<close> continues to its end with the clock at \<open>t1\<close>.
  An event that is not possible in a state leaves the state as it is.
\<close>

datatype ('t, 'img) event = Start 't | Complete nat "'img option" | Resume 't

definition step ::
    "('t, 'f, 'img, 'png, 'resp, 'e) externals \<Rightarrow> GenerateReqInput \<Rightarrow>
     ('t, 'img, 'resp, 'e) state \<Rightarrow> ('t, 'img) event \<Rightarrow> ('t, 'img, 'resp, 'e) state" where
  "step ext gen_req s ev =
     (case ev of
        Start t0 \<Rightarrow>
          (case pc s of
             NotStarted \<Rightarrow>
               s\<lparr>pc := AwaitingGather t0,
                 gen_processes := map GenerateImageProcess_init [0..<nat (num_output_images gen_req)]\<rparr>
           | _ \<Rightarrow> s)
      | Complete i response_image \<Rightarrow>
          (case pc s of
             AwaitingGather t0 \<Rightarrow>
               if i < length (gen_processes s) \<and> \<not> finished (gen_processes s ! i)
               then s\<lparr>gen_processes :=
                        (gen_processes s)
                          [i := GenerateImageProcess_run ext response_image (gen_processes s ! i)]\<rparr>
               else s
           | _ \<Rightarrow> s)
      | Resume t1 \<Rightarrow>
          (case pc s of
             AwaitingGather t0 \<Rightarrow>
               if list_all finished (gen_processes s)
               then (case respond_finally ext t0 t1 (gen_processes s) (responder s) of
                       (R, raised) \<Rightarrow>
                         s\<lparr>pc := (case raised of None \<Rightarrow> Returned | Some e \<Rightarrow> Raised e),
                           responder := R\<rparr>)
               else s
           | _ \<Rightarrow> s))"

definition run ::
    "('t, 'f, 'img, 'png, 'resp, 'e) externals \<Rightarrow> GenerateReqInput \<Rightarrow> ('t, 'img) event list \<Rightarrow>
     ('t, 'img, 'resp, 'e) state" where
  "run ext gen_req schedule = foldl (step ext gen_req) initial schedule"

fun terminated :: "('t, 'img, 'resp, 'e) state \<Rightarrow> bool" where
  "terminated s = (case pc s of Returned \<Rightarrow> True | Raised e \<Rightarrow> True | _ \<Rightarrow> False)"

text \<open>
  Stand-ins for the collaborators, to run the model on concrete batches: an image and its
  encoding are strings (the empty one is falsy, the encoder puts \<open>png:\<close> in front and
  refuses the image \<open>bad\<close>), a response is the triple of its arguments, the clock counts
  whole seconds, and floats are rationals rendered as in the integer fragment.
\<close>

definition stub_externals ::
    "(int, rat, string, string,
      (string \<times> string list) list \<times> (string \<times> string) list \<times> string, string) externals" where
  "stub_externals =
     \<lparr>truthy = (\<lambda>img. img \<noteq> []),
      png_from = (\<lambda>img. if img = ''bad'' then Inl ''cannot encode'' else Inr (''png:'' @ img)),
      JSONResponse = (\<lambda>content headers media_type. Inr (content, headers, media_type)),
      total_seconds = (\<lambda>t1 t0. of_int (t1 - t0)),
      float_div = (\<lambda>x y. x / y),
      float_of_int = of_int,
      float_str = (\<lambda>q. float_str_integral \<lfloor>q\<rfloor>),
      MILLI = 1 / 1000\<rparr>"

subsection \<open>Invariant of the reachable states\<close>

text \<open>
  \<open>launched\<close>: one process per requested image, the process at position \<open>i\<close> carrying
  index \<open>i\<close>. \<open>batch_inv\<close>: before \<open>run\<close> has come to its end the responder is untouched;
  once it has, every process has finished and the responder is what the code after the
  \<open>gather\<close> made of a fresh one. \<open>has_finished s i\<close>: process \<open>i\<close> exists and has finished.
\<close>

definition launched :: "GenerateReqInput \<Rightarrow> ('t, 'img, 'resp, 'e) state \<Rightarrow> bool" where
  "launched gen_req s \<longleftrightarrow>
     length (gen_processes s) = nat (num_output_images gen_req) \<and>
     (\<forall>i < length (gen_processes s). index (gen_processes s ! i) = i)"

definition batch_inv ::
    "('t, 'f, 'img, 'png, 'resp, 'e) externals \<Rightarrow> GenerateReqInput \<Rightarrow>
     ('t, 'img, 'resp, 'e) state \<Rightarrow> bool" where
  "batch_inv ext gen_req s =
     (case pc s of
        NotStarted \<Rightarrow> gen_processes s = [] \<and> responder s = new_responder
      | AwaitingGather t0 \<Rightarrow> launched gen_req s \<and> responder s = new_responder
      | Returned \<Rightarrow>
          launched gen_req s \<and> list_all finished (gen_processes s) \<and>
          (\<exists>t0 t1. respond_finally ext t0 t1 (gen_processes s) new_responder = (responder s, None))
      | Raised e \<Rightarrow>
          launched gen_req s \<and> list_all finished (gen_processes s) \<and>
          (\<exists>t0 t1. respond_finally ext t0 t1 (gen_processes s) new_responder = (responder s, Some e)))"

definition has_finished :: "('t, 'img, 'resp, 'e) state \<Rightarrow> nat \<Rightarrow> bool" where
  "has_finished s i \<longleftrightarrow> i < length (gen_processes s) \<and> finished (gen_processes s ! i)"

section \<open>Properties of the serializer\<close>

lemma join_Cons: "join sep (x # xs) = x @ concat (map (\<lambda>y. sep @ y) xs)"
  by (induction xs arbitrary: x) simp_all

lemmas render_simps =
  float_str_integral_def str_int_def str_nat.simps digit_char_def dict_of_def



text \<open>
  Claim C7. The claim is that a boolean field serializes to \<open>?1\<close> when true and to \<open>?0\<close>
  when false, and a list field to its items joined with a comma. The body of
  \<open>HTTPBooleanField.serialized\<close> says so, but the class statement that holds it names
  \<open>bool\<close> as a base and raises \<open>TypeError\<close>: loading the module stops there, after the
  decimal, string and list classes, and no boolean field is ever created or rendered.
\<close>

theorem boolean_field_class_statement_raises:
  "class_statement [HTTPStructuredField_protocol, bool_type] =
     Inl (TypeError_not_an_acceptable_base_type bool_type) \<and>
   load_classes structured_field_classes [] =
     Inl (''HTTPBooleanField'', TypeError_not_an_acceptable_base_type bool_type) \<and>
   load_classes (take 3 structured_field_classes) [] =
     Inr [''HTTPDecimalField'', ''HTTPStringField'', ''HTTPListField'']"
  by (simp add: structured_field_classes_def acceptable_base_type_def)

text \<open>
  The list rule of the same claim, on the body of \<open>HTTPListField.serialized\<close>: nothing for
  the empty list, and otherwise the first item followed by a comma and an item for each
  further item, so that no separator trails.
\<close>

lemma list_field_serialized:
  "serialized fstr (HTTPListField xs) = join '','' (map (serialized fstr) xs) \<and>
   serialized fstr (HTTPListField []) = [] \<and>
   serialized fstr (HTTPListField (x # rest)) =
     serialized fstr x @ concat (map (\<lambda>y. '','' @ serialized fstr y) rest)"
  by (simp add: join_Cons comp_def)






section \<open>Properties of the batch\<close>

lemma batch_inv_initial: "batch_inv ext gen_req initial"
  by (simp add: batch_inv_def initial_def)

lemma index_run [simp]: "index (GenerateImageProcess_run ext r p) = index p"
  by (simp add: GenerateImageProcess_run_def)

lemma finished_run [simp]: "finished (GenerateImageProcess_run ext r p)"
  by (simp add: GenerateImageProcess_run_def)

lemma launched_start:
  "launched gen_req (s\<lparr>pc := c,
      gen_processes := map GenerateImageProcess_init [0..<nat (num_output_images gen_req)]\<rparr>)"
  by (simp add: launched_def GenerateImageProcess_init_def)

lemma launched_update:
  "launched gen_req s \<Longrightarrow>
   launched gen_req (s\<lparr>gen_processes := (gen_processes s)[i := GenerateImageProcess_run ext r (gen_processes s ! i)]\<rparr>)"
  by (cases "i < length (gen_processes s)") (auto simp: launched_def nth_list_update)

lemma batch_inv_step: "batch_inv ext gen_req s \<Longrightarrow> batch_inv ext gen_req (step ext gen_req s ev)"
proof (cases ev)
  case (Start t0)
  assume "batch_inv ext gen_req s"
  then show ?thesis using Start launched_start [where gen_req = gen_req and s = s]
    by (cases "pc s") (auto simp: step_def batch_inv_def)
next
  case (Complete i r)
  assume "batch_inv ext gen_req s"
  then show ?thesis using Complete launched_update [where gen_req = gen_req and s = s]
    by (cases "pc s") (auto simp: step_def batch_inv_def)
next
  case (Resume t1)
  assume inv: "batch_inv ext gen_req s"
  show ?thesis
  proof (cases "pc s")
    case (AwaitingGather t0)
    show ?thesis
    proof (cases "list_all finished (gen_processes s)")
      case True
      obtain R raised where rf: "respond_finally ext t0 t1 (gen_processes s) new_responder = (R, raised)"
        by (cases "respond_finally ext t0 t1 (gen_processes s) new_responder")
      from inv AwaitingGather have "responder s = new_responder" and "launched gen_req s"
        by (simp_all add: batch_inv_def)
      with True rf AwaitingGather Resume show ?thesis
        by (cases raised) (auto simp: step_def batch_inv_def launched_def)
    next
      case False
      with inv AwaitingGather Resume show ?thesis by (simp add: step_def)
    qed
  qed (use inv Resume in \<open>simp_all add: step_def\<close>)
qed

lemma batch_inv_foldl:
  "batch_inv ext gen_req s \<Longrightarrow> batch_inv ext gen_req (foldl (step ext gen_req) s schedule)"
  by (induction schedule arbitrary: s) (simp_all add: batch_inv_step)

lemma batch_inv_run: "batch_inv ext gen_req (run ext gen_req schedule)"
  by (simp add: run_def batch_inv_foldl batch_inv_initial)

lemma assemble_Inr:
  "assemble ext i procs acc = Inr pngs \<Longrightarrow>
   \<exists>new. pngs = acc @ new \<and> length new = length procs \<and>
     (\<forall>j < length procs. \<exists>img. output' (procs ! j) = Some (TextToImageInferenceOutput img) \<and>
        png_from ext img = Inr (new ! j))"
proof (induction procs arbitrary: i acc)
  case Nil
  then show ?case by simp
next
  case (Cons p procs)
  from Cons.prems obtain out where out: "output' p = Some out"
    by (cases "output' p") auto
  from Cons.prems out obtain png where png: "png_from ext (image out) = Inr png"
    by (cases "png_from ext (image out)") auto
  from Cons.prems out png have "assemble ext (Suc i) procs (acc @ [png]) = Inr pngs"
    by simp
  from Cons.IH [OF this] obtain new where new: "pngs = (acc @ [png]) @ new"
    "length new = length procs"
    "\<forall>j < length procs. \<exists>img. output' (procs ! j) = Some (TextToImageInferenceOutput img) \<and>
        png_from ext img = Inr (new ! j)"
    by blast
  have "\<forall>j < length (p # procs). \<exists>img. output' ((p # procs) ! j) = Some (TextToImageInferenceOutput img) \<and>
        png_from ext img = Inr ((png # new) ! j)"
  proof (intro allI impI)
    fix j assume "j < length (p # procs)"
    then show "\<exists>img. output' ((p # procs) ! j) = Some (TextToImageInferenceOutput img) \<and>
        png_from ext img = Inr ((png # new) ! j)"
      using out png new(3) by (cases j) (auto intro: exI [of _ "image out"])
  qed
  with new(1,2) show ?case
    by (intro exI [of _ "png # new"]) simp
qed

lemma assemble_missing:
  "k < length procs \<Longrightarrow> output' (procs ! k) = None \<Longrightarrow>
   \<forall>j < k. \<exists>out png. output' (procs ! j) = Some out \<and> png_from ext (image out) = Inr png \<Longrightarrow>
   assemble ext i procs acc =
     Inl (Exception (''Expected output for process '' @ str_nat (i + k) @ '' but got `None`''))"
proof (induction procs arbitrary: i k acc)
  case Nil
  then show ?case by simp
next
  case (Cons p procs)
  show ?case
  proof (cases k)
    case 0
    with Cons.prems show ?thesis by simp
  next
    case (Suc k')
    from Cons.prems(3) Suc obtain out png where
      hd: "output' p = Some out" "png_from ext (image out) = Inr png"
      by fastforce
    have "assemble ext (Suc i) procs (acc @ [png]) =
      Inl (Exception (''Expected output for process '' @ str_nat (Suc i + k') @ '' but got `None`''))"
    proof (rule Cons.IH)
      show "k' < length procs" using Cons.prems(1) Suc by simp
      show "output' (procs ! k') = None" using Cons.prems(2) Suc by simp
      show "\<forall>j<k'. \<exists>out png. output' (procs ! j) = Some out \<and> png_from ext (image out) = Inr png"
      proof (intro allI impI)
        fix j assume "j < k'"
        then have "Suc j < k" using Suc by simp
        with Cons.prems(3) show "\<exists>out png. output' (procs ! j) = Some out \<and> png_from ext (image out) = Inr png"
          by fastforce
      qed
    qed
    with hd Suc show ?thesis by simp
  qed
qed

lemma assemble_some_missing:
  assumes "k < length procs" and "output' (procs ! k) = None"
  shows "\<exists>e. assemble ext i procs acc = Inl e"
proof (cases "assemble ext i procs acc")
  case (Inl e)
  then show ?thesis by blast
next
  case (Inr pngs)
  from assemble_Inr [OF this] assms show ?thesis by fastforce
qed

text \<open>What the responder holds after the \<open>try\<close> and the \<open>finally\<close>.\<close>

lemma respond_finally_raised:
  assumes "respond_finally ext t0 t1 procs new_responder = (R, Some e)"
  shows "calls R = [EnsureResponse] \<and> sink R = [ErrorResponse]"
  using assms
  by (auto simp: respond_finally_def respond_def new_responder_def ensure_response_def
      send_response_def Let_def split: sum.splits prod.splits)

lemma respond_finally_returned:
  assumes "respond_finally ext t0 t1 procs new_responder = (R, None)"
  shows "\<exists>pngs r. assemble ext 0 procs [] = Inr pngs \<and>
     JSONResponse ext [(''images'', pngs)]
       [(''Server-Timing'', serialized (float_str ext)
            (server_timing_metrics ext (milliseconds_from ext (total_seconds ext t1 t0))))]
       ''application/json'' = Inr r \<and>
     calls R = [SendResponse r, EnsureResponse] \<and> sink R = [Delivered r]"
  using assms
  by (auto simp: respond_finally_def respond_def new_responder_def ensure_response_def
      send_response_def Let_def split: sum.splits prod.splits)

lemma respond_finally_missing:
  assumes "respond_finally ext t0 t1 procs new_responder = (R, raised)"
    and "k < length procs" and "output' (procs ! k) = None"
  shows "\<exists>e. raised = Some e"
proof -
  from assemble_some_missing [OF assms(2,3)] obtain e where "assemble ext 0 procs [] = Inl e"
    by blast
  with assms(1) show ?thesis
    by (auto simp: respond_finally_def respond_def)
qed

lemma respond_finally_first_missing:
  assumes "respond_finally ext t0 t1 procs new_responder = (R, raised)"
    and "k < length procs" and "output' (procs ! k) = None"
    and "\<forall>j < k. \<exists>out png. output' (procs ! j) = Some out \<and> png_from ext (image out) = Inr png"
  shows "raised = Some (Exception (''Expected output for process '' @ str_nat k @ '' but got `None`''))"
  using assms(1) assemble_missing [OF assms(2,3,4), of 0 "[]"]
  by (auto simp: respond_finally_def respond_def)

lemma assemble_Inl_Exception:
  "assemble ext i procs acc = Inl (Exception m) \<Longrightarrow> \<exists>k < length procs. output' (procs ! k) = None"
proof (induction procs arbitrary: i acc)
  case Nil
  then show ?case by simp
next
  case (Cons p procs)
  show ?case
  proof (cases "output' p")
    case None
    then show ?thesis by (intro exI [of _ 0]) simp
  next
    case (Some out)
    with Cons.prems obtain png where "png_from ext (image out) = Inr png"
      and "assemble ext (Suc i) procs (acc @ [png]) = Inl (Exception m)"
      by (cases "png_from ext (image out)") auto
    from Cons.IH [OF this(2)] obtain k where "k < length procs" "output' (procs ! k) = None"
      by blast
    then show ?thesis by (intro exI [of _ "Suc k"]) simp
  qed
qed

lemma respond_finally_Exception:
  assumes "respond_finally ext t0 t1 procs new_responder = (R, Some (Exception m))"
  shows "\<exists>k < length procs. output' (procs ! k) = None"
proof (cases "assemble ext 0 procs []")
  case (Inl e)
  with assms have "e = Exception m"
    by (auto simp: respond_finally_def respond_def)
  with Inl show ?thesis using assemble_Inl_Exception by blast
next
  case (Inr pngs)
  with assms show ?thesis
    by (auto simp: respond_finally_def respond_def Let_def split: sum.splits)
qed

lemma terminated_outcome:
  assumes "batch_inv ext gen_req s" and "terminated s"
  shows "launched gen_req s \<and> list_all finished (gen_processes s) \<and>
    (\<exists>t0 t1 raised. respond_finally ext t0 t1 (gen_processes s) new_responder = (responder s, raised) \<and>
       pc s = (case raised of None \<Rightarrow> Returned | Some e \<Rightarrow> Raised e))"
proof (cases "pc s")
  case Returned
  with assms(1) obtain t0 t1 where
    "respond_finally ext t0 t1 (gen_processes s) new_responder = (responder s, None)"
    and "launched gen_req s" "list_all finished (gen_processes s)"
    by (auto simp: batch_inv_def)
  with Returned show ?thesis
    by (intro conjI exI [of _ t0] exI [of _ t1] exI [of _ None]) simp_all
next
  case (Raised e)
  with assms(1) obtain t0 t1 where
    "respond_finally ext t0 t1 (gen_processes s) new_responder = (responder s, Some e)"
    and "launched gen_req s" "list_all finished (gen_processes s)"
    by (auto simp: batch_inv_def)
  with Raised show ?thesis
    by (intro conjI exI [of _ t0] exI [of _ t1] exI [of _ "Some e"]) simp_all
qed (use assms(2) in simp_all)

lemma not_terminated_untouched:
  assumes "batch_inv ext gen_req s" and "\<not> terminated s"
  shows "responder s = new_responder"
  using assms by (cases "pc s") (simp_all add: batch_inv_def)

lemma terminated_step: "terminated s \<Longrightarrow> step ext gen_req s ev = s"
  by (cases ev; cases "pc s") (simp_all add: step_def)

lemma terminated_foldl: "terminated s \<Longrightarrow> foldl (step ext gen_req) s evs = s"
  by (induction evs) (simp_all add: terminated_step)

text \<open>A process that has finished is never written again.\<close>

lemma finished_step:
  assumes "batch_inv ext gen_req s" and "i < length (gen_processes s)" and "finished (gen_processes s ! i)"
  shows "length (gen_processes (step ext gen_req s ev)) = length (gen_processes s) \<and>
         gen_processes (step ext gen_req s ev) ! i = gen_processes s ! i"
proof (cases ev)
  case (Start t0)
  with assms show ?thesis by (cases "pc s") (auto simp: step_def batch_inv_def)
next
  case (Complete j r)
  with assms show ?thesis by (cases "pc s") (auto simp: step_def nth_list_update)
next
  case (Resume t1)
  then show ?thesis
    by (cases "pc s") (auto simp: step_def split: prod.splits)
qed

lemma finished_foldl:
  assumes "batch_inv ext gen_req s" and "i < length (gen_processes s)" and "finished (gen_processes s ! i)"
  shows "length (gen_processes (foldl (step ext gen_req) s evs)) = length (gen_processes s) \<and>
         gen_processes (foldl (step ext gen_req) s evs) ! i = gen_processes s ! i"
  using assms
proof (induction evs arbitrary: s)
  case Nil
  then show ?case by simp
next
  case (Cons ev evs)
  have st: "length (gen_processes (step ext gen_req s ev)) = length (gen_processes s)"
    "gen_processes (step ext gen_req s ev) ! i = gen_processes s ! i"
    using finished_step [OF Cons.prems] by simp_all
  have "length (gen_processes (foldl (step ext gen_req) (step ext gen_req s ev) evs)) =
          length (gen_processes (step ext gen_req s ev)) \<and>
        gen_processes (foldl (step ext gen_req) (step ext gen_req s ev) evs) ! i =
          gen_processes (step ext gen_req s ev) ! i"
    using Cons.prems st by (intro Cons.IH) (simp_all add: batch_inv_step)
  with st show ?case by simp
qed

text \<open>A run in which the batcher completes every request comes to its end.\<close>

lemma has_finished_step:
  "batch_inv ext gen_req s \<Longrightarrow> has_finished s i \<Longrightarrow> has_finished (step ext gen_req s ev) i"
  using finished_step [of ext gen_req s i ev] by (simp add: has_finished_def)

lemma has_finished_Complete:
  assumes "batch_inv ext gen_req s" and "pc s \<noteq> NotStarted" and "i < nat (num_output_images gen_req)"
  shows "has_finished (step ext gen_req s (Complete i r)) i"
proof (cases "pc s")
  case (AwaitingGather t0)
  with assms have "i < length (gen_processes s)" by (simp add: batch_inv_def launched_def)
  with AwaitingGather show ?thesis by (simp add: step_def has_finished_def)
next
  case Returned
  with assms show ?thesis
    by (simp add: step_def has_finished_def batch_inv_def launched_def list_all_length)
next
  case (Raised e)
  with assms show ?thesis
    by (simp add: step_def has_finished_def batch_inv_def launched_def list_all_length)
qed (use assms in simp)

lemma started_step: "pc s \<noteq> NotStarted \<Longrightarrow> pc (step ext gen_req s ev) \<noteq> NotStarted"
  by (cases ev; cases "pc s") (auto simp: step_def split: prod.splits option.splits)

lemma all_completed:
  assumes "batch_inv ext gen_req s" and "pc s \<noteq> NotStarted"
    and "\<forall>i < nat (num_output_images gen_req). has_finished s i \<or> (\<exists>r. Complete i r \<in> set cs)"
  shows "\<forall>i < nat (num_output_images gen_req). has_finished (foldl (step ext gen_req) s cs) i"
  using assms
proof (induction cs arbitrary: s)
  case Nil
  then show ?case by simp
next
  case (Cons ev cs)
  have "\<forall>i < nat (num_output_images gen_req).
          has_finished (step ext gen_req s ev) i \<or> (\<exists>r. Complete i r \<in> set cs)"
  proof (intro allI impI)
    fix i assume i: "i < nat (num_output_images gen_req)"
    with Cons.prems(3) consider "has_finished s i" | r where "ev = Complete i r"
      | "\<exists>r. Complete i r \<in> set cs"
      by auto
    then show "has_finished (step ext gen_req s ev) i \<or> (\<exists>r. Complete i r \<in> set cs)"
    proof cases
      case 1
      then show ?thesis using has_finished_step [OF Cons.prems(1)] by blast
    next
      case 2
      then show ?thesis using has_finished_Complete [OF Cons.prems(1,2) i] by blast
    next
      case 3
      then show ?thesis by blast
    qed
  qed
  then show ?case
    using Cons.prems by (simp add: Cons.IH batch_inv_step started_step)
qed

lemma completed_run_terminates:
  assumes "\<forall>i < nat (num_output_images gen_req). \<exists>r. Complete i r \<in> set cs"
  shows "terminated (run ext gen_req (Start t0 # cs @ [Resume t1]))"
proof -
  let ?s0 = "step ext gen_req initial (Start t0)"
  let ?s1 = "foldl (step ext gen_req) ?s0 cs"
  have inv0: "batch_inv ext gen_req ?s0" by (simp add: batch_inv_step batch_inv_initial)
  have pc0: "pc ?s0 \<noteq> NotStarted" by (simp add: step_def initial_def)
  have fin: "\<forall>i < nat (num_output_images gen_req). has_finished ?s1 i"
    using all_completed [OF inv0 pc0] assms by blast
  have inv1: "batch_inv ext gen_req ?s1" using inv0 by (rule batch_inv_foldl)
  have pc1: "pc ?s1 \<noteq> NotStarted"
    using pc0 by (induction cs arbitrary: rule: rev_induct) (simp_all add: started_step)
  have run: "run ext gen_req (Start t0 # cs @ [Resume t1]) = step ext gen_req ?s1 (Resume t1)"
    by (simp add: run_def)
  show ?thesis
  proof (cases "pc ?s1")
    case NotStarted
    with pc1 show ?thesis by simp
  next
    case (AwaitingGather t)
    with inv1 have len: "length (gen_processes ?s1) = nat (num_output_images gen_req)"
      by (simp add: batch_inv_def launched_def)
    with fin have "list_all finished (gen_processes ?s1)"
      by (simp add: list_all_length has_finished_def)
    with AwaitingGather show ?thesis unfolding run
      by (auto simp: step_def split: prod.splits option.splits)
  next
    case Returned
    then show ?thesis unfolding run by (simp add: step_def)
  next
    case (Raised e)
    then show ?thesis unfolding run by (simp add: step_def)
  qed
qed

lemma server_timing_metrics_eq:
  "server_timing_metrics ext d =
     HTTPListField
       [HTTPParametersField
          [(''pre'', HTTPBooleanField True),
           (''desc'', HTTPStringField ''Batch Pre-processing''),
           (''dur'', HTTPDecimalField (float_of_int ext 0))],
        HTTPParametersField
          [(''infer'', HTTPBooleanField True),
           (''desc'', HTTPStringField ''Batch Inference''),
           (''dur'', HTTPDecimalField d)],
        HTTPParametersField
          [(''post'', HTTPBooleanField True),
           (''desc'', HTTPStringField ''Batch Post-processing''),
           (''dur'', HTTPDecimalField d)]]"
  by (simp add: server_timing_metrics_def dict_of_def)

lemma server_timing_metrics_serialized:
  "serialized fstr (server_timing_metrics ext d) =
     ''pre;desc=\"Batch Pre-processing\";dur='' @ fstr (float_of_int ext 0) @
     '',infer;desc=\"Batch Inference\";dur='' @ fstr d @
     '',post;desc=\"Batch Post-processing\";dur='' @ fstr d"
  by (simp add: server_timing_metrics_eq)

lemmas run_simps =
  run_def step_def initial_def new_responder_def respond_finally_def respond_def
  ensure_response_def send_response_def GenerateImageProcess_init_def
  GenerateImageProcess_run_def stub_externals_def milliseconds_from_def
  server_timing_metrics_serialized

subsection \<open>Concrete batches\<close>

text \<open>
  Runs of the model on the stand-ins: three images completed out of order, the same in
  another order, a batch whose second item has no output, one whose second image the
  encoder refuses, one whose first image the encoder refuses while the second item has
  no output, and one still waiting at the \<open>gather\<close>.
\<close>

lemma example_success:
  "run stub_externals \<lparr>num_output_images = 3\<rparr>
     [Start 5, Complete 2 (Some ''c''), Complete 0 (Some ''a''), Complete 1 (Some ''b''), Resume 7] =
   \<lparr>pc = Returned,
    gen_processes =
      [\<lparr>index = 0, output' = Some (TextToImageInferenceOutput ''a''), finished = True\<rparr>,
       \<lparr>index = 1, output' = Some (TextToImageInferenceOutput ''b''), finished = True\<rparr>,
       \<lparr>index = 2, output' = Some (TextToImageInferenceOutput ''c''), finished = True\<rparr>],
    responder =
      \<lparr>calls =
         [SendResponse ([(''images'', [''png:a'', ''png:b'', ''png:c''])],
            [(''Server-Timing'',
              ''pre;desc=\"Batch Pre-processing\";dur=0.0,infer;desc=\"Batch Inference\";dur=2000.0,post;desc=\"Batch Post-processing\";dur=2000.0'')],
            ''application/json''),
          EnsureResponse],
       sink =
         [Delivered ([(''images'', [''png:a'', ''png:b'', ''png:c''])],
            [(''Server-Timing'',
              ''pre;desc=\"Batch Pre-processing\";dur=0.0,infer;desc=\"Batch Inference\";dur=2000.0,post;desc=\"Batch Post-processing\";dur=2000.0'')],
            ''application/json'')]\<rparr>\<rparr>"
  by (simp add: run_simps upt_rec render_simps)

lemma example_success_other_order:
  "run stub_externals \<lparr>num_output_images = 3\<rparr>
     [Start 5, Complete 1 (Some ''b''), Complete 0 (Some ''a''), Complete 2 (Some ''c''), Resume 7] =
   run stub_externals \<lparr>num_output_images = 3\<rparr>
     [Start 5, Complete 2 (Some ''c''), Complete 0 (Some ''a''), Complete 1 (Some ''b''), Resume 7]"
  by (simp add: run_simps upt_rec render_simps)

lemma example_missing:
  "run stub_externals \<lparr>num_output_images = 3\<rparr>
     [Start 5, Complete 0 (Some ''a''), Complete 1 None, Complete 2 (Some ''c''), Resume 7] =
   \<lparr>pc = Raised (Exception ''Expected output for process 1 but got `None`''),
    gen_processes =
      [\<lparr>index = 0, output' = Some (TextToImageInferenceOutput ''a''), finished = True\<rparr>,
       \<lparr>index = 1, output' = None, finished = True\<rparr>,
       \<lparr>index = 2, output' = Some (TextToImageInferenceOutput ''c''), finished = True\<rparr>],
    responder = \<lparr>calls = [EnsureResponse], sink = [ErrorResponse]\<rparr>\<rparr>"
  by (simp add: run_simps upt_rec render_simps)

lemma example_encoder_raises:
  "run stub_externals \<lparr>num_output_images = 3\<rparr>
     [Start 5, Complete 0 (Some ''a''), Complete 1 (Some ''bad''), Complete 2 (Some ''c''), Resume 7] =
   \<lparr>pc = Raised (External ''cannot encode''),
    gen_processes =
      [\<lparr>index = 0, output' = Some (TextToImageInferenceOutput ''a''), finished = True\<rparr>,
       \<lparr>index = 1, output' = Some (TextToImageInferenceOutput ''bad''), finished = True\<rparr>,
       \<lparr>index = 2, output' = Some (TextToImageInferenceOutput ''c''), finished = True\<rparr>],
    responder = \<lparr>calls = [EnsureResponse], sink = [ErrorResponse]\<rparr>\<rparr>"
  by (simp add: run_simps upt_rec render_simps)

lemma example_encoder_before_missing:
  "run stub_externals \<lparr>num_output_images = 2\<rparr>
     [Start 5, Complete 0 (Some ''bad''), Complete 1 None, Resume 7] =
   \<lparr>pc = Raised (External ''cannot encode''),
    gen_processes =
      [\<lparr>index = 0, output' = Some (TextToImageInferenceOutput ''bad''), finished = True\<rparr>,
       \<lparr>index = 1, output' = None, finished = True\<rparr>],
    responder = \<lparr>calls = [EnsureResponse], sink = [ErrorResponse]\<rparr>\<rparr>"
  by (simp add: run_simps upt_rec render_simps)

lemma example_pending:
  "run stub_externals \<lparr>num_output_images = 3\<rparr>
     [Start 5, Complete 0 (Some ''a''), Resume 6] =
   \<lparr>pc = AwaitingGather 5,
    gen_processes =
      [\<lparr>index = 0, output' = Some (TextToImageInferenceOutput ''a''), finished = True\<rparr>,
       \<lparr>index = 1, output' = None, finished = False\<rparr>,
       \<lparr>index = 2, output' = None, finished = False\<rparr>],
    responder = \<lparr>calls = [], sink = []\<rparr>\<rparr>"
  by (simp add: run_simps upt_rec render_simps)

lemma example_falsy:
  "foldl (step stub_externals \<lparr>num_output_images = 3\<rparr>)
     (step stub_externals \<lparr>num_output_images = 3\<rparr>
        (run stub_externals \<lparr>num_output_images = 3\<rparr> [Start 5, Complete 0 (Some ''a''), Resume 6])
        (Complete 1 (Some '''')))
     [Complete 2 (Some ''c''), Resume 7] =
   \<lparr>pc = Raised (Exception ''Expected output for process 1 but got `None`''),
    gen_processes =
      [\<lparr>index = 0, output' = Some (TextToImageInferenceOutput ''a''), finished = True\<rparr>,
       \<lparr>index = 1, output' = None, finished = True\<rparr>,
       \<lparr>index = 2, output' = Some (TextToImageInferenceOutput ''c''), finished = True\<rparr>],
    responder = \<lparr>calls = [EnsureResponse], sink = [ErrorResponse]\<rparr>\<rparr>"
  unfolding example_pending
  by (simp add: run_simps upt_rec render_simps)

lemma all_below_3: "(\<forall>i < 3. P i) \<longleftrightarrow> P 0 \<and> P (Suc 0) \<and> P (Suc (Suc 0))" for P :: "nat \<Rightarrow> bool"
  by (auto simp: numeral_3_eq_3 less_Suc_eq)

text \<open>
  Claim C1. Whatever the schedule, the externals and the outcome of the batch (all items
  succeed, an item finishes without an output, the encoder or the response constructor
  raises), \<open>run\<close> calls \<open>ensure_response\<close> at most once; when \<open>run\<close> has come to its end
  it has called it exactly once, as its last action, and the sink holds exactly one
  response; before that the responder is untouched. A run in which the batcher completes
  every request and the \<open>gather\<close> returns does come to its end.
\<close>

theorem ensure_response_exactly_once:
  "count_list (calls (responder (run ext gen_req schedule))) EnsureResponse \<le> 1 \<and>
   (terminated (run ext gen_req schedule) \<longrightarrow>
      count_list (calls (responder (run ext gen_req schedule))) EnsureResponse = 1 \<and>
      last (calls (responder (run ext gen_req schedule))) = EnsureResponse \<and>
      length (sink (responder (run ext gen_req schedule))) = 1) \<and>
   (\<not> terminated (run ext gen_req schedule) \<longrightarrow>
      calls (responder (run ext gen_req schedule)) = [] \<and>
      sink (responder (run ext gen_req schedule)) = []) \<and>
   ((\<forall>i < nat (num_output_images gen_req). \<exists>r. Complete i r \<in> set cs) \<longrightarrow>
      terminated (run ext gen_req (Start t0 # cs @ [Resume t1])))"
proof -
  let ?s = "run ext gen_req schedule"
  have inv: "batch_inv ext gen_req ?s" by (rule batch_inv_run)
  have ended: "count_list (calls (responder ?s)) EnsureResponse = 1 \<and>
      last (calls (responder ?s)) = EnsureResponse \<and> length (sink (responder ?s)) = 1"
    if "terminated ?s"
  proof -
    from terminated_outcome [OF inv that] obtain t0 t1 raised where
      rf: "respond_finally ext t0 t1 (gen_processes ?s) new_responder = (responder ?s, raised)"
      by blast
    show ?thesis
    proof (cases raised)
      case None
      with rf respond_finally_returned [of ext t0 t1 "gen_processes ?s" "responder ?s"]
      show ?thesis by auto
    next
      case (Some e)
      with rf respond_finally_raised [of ext t0 t1 "gen_processes ?s" "responder ?s" e]
      show ?thesis by auto
    qed
  qed
  have pending: "calls (responder ?s) = [] \<and> sink (responder ?s) = []" if "\<not> terminated ?s"
    using not_terminated_untouched [OF inv that] by (simp add: new_responder_def)
  have "count_list (calls (responder ?s)) EnsureResponse \<le> 1"
    using ended pending by (cases "terminated ?s") auto
  then show ?thesis
    using ended pending completed_run_terminates [of gen_req cs ext t0 t1] by blast
qed

theorem ensure_response_exactly_once_witness:
  "Complete 0 (Some ''a'') \<in> set [Complete 2 (Some ''c''), Complete 0 (Some ''a''), Complete 1 (Some ''b'')] \<and>
   Complete 1 (Some ''b'') \<in> set [Complete 2 (Some ''c''), Complete 0 (Some ''a''), Complete 1 (Some ''b'')] \<and>
   Complete 2 (Some ''c'') \<in> set [Complete 2 (Some ''c''), Complete 0 (Some ''a''), Complete 1 (Some ''b'')] \<and>
   terminated (run stub_externals \<lparr>num_output_images = 3\<rparr>
     [Start 5, Complete 2 (Some ''c''), Complete 0 (Some ''a''), Complete 1 (Some ''b''), Resume 7]) \<and>
   count_list (calls (responder (run stub_externals \<lparr>num_output_images = 3\<rparr>
     [Start 5, Complete 2 (Some ''c''), Complete 0 (Some ''a''), Complete 1 (Some ''b''), Resume 7])))
     EnsureResponse = 1 \<and>
   length (sink (responder (run stub_externals \<lparr>num_output_images = 3\<rparr>
     [Start 5, Complete 2 (Some ''c''), Complete 0 (Some ''a''), Complete 1 (Some ''b''), Resume 7]))) = 1 \<and>
   terminated (run stub_externals \<lparr>num_output_images = 3\<rparr>
     [Start 5, Complete 0 (Some ''a''), Complete 1 None, Complete 2 (Some ''c''), Resume 7]) \<and>
   sink (responder (run stub_externals \<lparr>num_output_images = 3\<rparr>
     [Start 5, Complete 0 (Some ''a''), Complete 1 None, Complete 2 (Some ''c''), Resume 7])) =
     [ErrorResponse] \<and>
   terminated (run stub_externals \<lparr>num_output_images = 3\<rparr>
     [Start 5, Complete 0 (Some ''a''), Complete 1 (Some ''bad''), Complete 2 (Some ''c''), Resume 7]) \<and>
   sink (responder (run stub_externals \<lparr>num_output_images = 3\<rparr>
     [Start 5, Complete 0 (Some ''a''), Complete 1 (Some ''bad''), Complete 2 (Some ''c''), Resume 7])) =
     [ErrorResponse] \<and>
   \<not> terminated (run stub_externals \<lparr>num_output_images = 3\<rparr>
     [Start 5, Complete 0 (Some ''a''), Resume 6]) \<and>
   sink (responder (run stub_externals \<lparr>num_output_images = 3\<rparr>
     [Start 5, Complete 0 (Some ''a''), Resume 6])) = []"
proof -
  have covered: "\<forall>i < nat (num_output_images \<lparr>num_output_images = 3\<rparr>).
      \<exists>r. Complete i r \<in> set [Complete 2 (Some ''c''), Complete 0 (Some ''a''), Complete 1 (Some ''b'')]"
    by (simp add: all_below_3)
  note once = ensure_response_exactly_once [of stub_externals "\<lparr>num_output_images = 3\<rparr>"]
  from covered
    once [of "[Start 5, Complete 2 (Some ''c''), Complete 0 (Some ''a''), Complete 1 (Some ''b''), Resume 7]"
      "[Complete 2 (Some ''c''), Complete 0 (Some ''a''), Complete 1 (Some ''b'')]" 5 7]
    once [of "[Start 5, Complete 0 (Some ''a''), Complete 1 None, Complete 2 (Some ''c''), Resume 7]" "[]" 5 7]
    once [of "[Start 5, Complete 0 (Some ''a''), Complete 1 (Some ''bad''), Complete 2 (Some ''c''), Resume 7]" "[]" 5 7]
    once [of "[Start 5, Complete 0 (Some ''a''), Resume 6]" "[]" 5 7]
  show ?thesis
    unfolding example_success example_missing example_encoder_raises example_pending
    by simp
qed

text \<open>
  Claim C2. When \<open>run\<close> has come to its end and every item process holds an output, then,
  whatever the order in which the processes completed, either a collaborator raised (and
  no success response exists) or the success response was built from the list of encoded
  images in which position \<open>i\<close> is the encoding of the image held by the process with
  index \<open>i\<close>, for every \<open>i\<close> below the requested number of images.
\<close>

theorem images_in_index_order:
  assumes "s = run ext gen_req schedule" and "terminated s"
    and "\<forall>p \<in> set (gen_processes s). output' p \<noteq> None"
  shows "(\<exists>e. pc s = Raised (External e) \<and> sink (responder s) = [ErrorResponse]) \<or>
    (\<exists>png_images headers r.
       pc s = Returned \<and> sink (responder s) = [Delivered r] \<and>
       JSONResponse ext [(''images'', png_images)] headers ''application/json'' = Inr r \<and>
       length png_images = nat (num_output_images gen_req) \<and>
       (\<forall>i < nat (num_output_images gen_req).
          index (gen_processes s ! i) = i \<and>
          (\<exists>img. output' (gen_processes s ! i) = Some (TextToImageInferenceOutput img) \<and>
                 png_from ext img = Inr (png_images ! i))))"
proof -
  have inv: "batch_inv ext gen_req s" using assms(1) by (simp add: batch_inv_run)
  from terminated_outcome [OF inv assms(2)] obtain t0 t1 raised where
    la: "launched gen_req s"
    and rf: "respond_finally ext t0 t1 (gen_processes s) new_responder = (responder s, raised)"
    and pc: "pc s = (case raised of None \<Rightarrow> Returned | Some e \<Rightarrow> Raised e)"
    by blast
  show ?thesis
  proof (cases raised)
    case None
    from respond_finally_returned [OF rf [unfolded None]] obtain pngs r where
      as: "assemble ext 0 (gen_processes s) [] = Inr pngs"
      and js: "JSONResponse ext [(''images'', pngs)]
         [(''Server-Timing'', serialized (float_str ext)
            (server_timing_metrics ext (milliseconds_from ext (total_seconds ext t1 t0))))]
         ''application/json'' = Inr r"
      and sk: "sink (responder s) = [Delivered r]"
      by blast
    from assemble_Inr [OF as] have
      len: "length pngs = length (gen_processes s)"
      and each: "\<forall>j < length (gen_processes s).
        \<exists>img. output' (gen_processes s ! j) = Some (TextToImageInferenceOutput img) \<and>
          png_from ext img = Inr (pngs ! j)"
      by auto
    from la len each have
      "length pngs = nat (num_output_images gen_req) \<and>
       (\<forall>i < nat (num_output_images gen_req).
          index (gen_processes s ! i) = i \<and>
          (\<exists>img. output' (gen_processes s ! i) = Some (TextToImageInferenceOutput img) \<and>
                 png_from ext img = Inr (pngs ! i)))"
      by (simp add: launched_def)
    with None pc sk js show ?thesis by auto
  next
    case (Some e)
    from respond_finally_raised [OF rf [unfolded Some]] have sk: "sink (responder s) = [ErrorResponse]"
      by simp
    show ?thesis
    proof (cases e)
      case (Exception m)
      from respond_finally_Exception [OF rf [unfolded Some Exception]] obtain k where
        "k < length (gen_processes s)" and "output' (gen_processes s ! k) = None"
        by blast
      moreover from this(1) have "gen_processes s ! k \<in> set (gen_processes s)"
        by (rule nth_mem)
      ultimately have False using assms(3) by blast
      then show ?thesis ..
    next
      case (External x)
      with Some pc sk show ?thesis by simp
    qed
  qed
qed

theorem images_in_index_order_witness:
  "terminated (run stub_externals \<lparr>num_output_images = 3\<rparr>
       [Start 5, Complete 2 (Some ''c''), Complete 0 (Some ''a''), Complete 1 (Some ''b''), Resume 7]) \<and>
   list_all (\<lambda>p. output' p \<noteq> None) (gen_processes (run stub_externals \<lparr>num_output_images = 3\<rparr>
       [Start 5, Complete 2 (Some ''c''), Complete 0 (Some ''a''), Complete 1 (Some ''b''), Resume 7])) \<and>
   sink (responder (run stub_externals \<lparr>num_output_images = 3\<rparr>
       [Start 5, Complete 2 (Some ''c''), Complete 0 (Some ''a''), Complete 1 (Some ''b''), Resume 7])) =
     [Delivered ([(''images'', [''png:a'', ''png:b'', ''png:c''])],
        [(''Server-Timing'',
          ''pre;desc=\"Batch Pre-processing\";dur=0.0,infer;desc=\"Batch Inference\";dur=2000.0,post;desc=\"Batch Post-processing\";dur=2000.0'')],
        ''application/json'')] \<and>
   run stub_externals \<lparr>num_output_images = 3\<rparr>
       [Start 5, Complete 1 (Some ''b''), Complete 0 (Some ''a''), Complete 2 (Some ''c''), Resume 7] =
   run stub_externals \<lparr>num_output_images = 3\<rparr>
       [Start 5, Complete 2 (Some ''c''), Complete 0 (Some ''a''), Complete 1 (Some ''b''), Resume 7]"
  using images_in_index_order [OF refl, of stub_externals "\<lparr>num_output_images = 3\<rparr>"
      "[Start 5, Complete 2 (Some ''c''), Complete 0 (Some ''a''), Complete 1 (Some ''b''), Resume 7]"]
    example_success_other_order
  unfolding example_success
  by simp

text \<open>
  Claim C3. In every reachable state in which the responder has been called, the sink
  holds a response or \<open>run\<close> has come to its end, all of the requested item processes
  have been launched and every one of them has finished; such a state is final. An item
  process has no \<open>raise\<close> of its own: it finishes by storing its output, an image or
  \<open>None\<close>.
\<close>

theorem join_barrier:
  assumes "s = run ext gen_req schedule"
    and "calls (responder s) \<noteq> [] \<or> sink (responder s) \<noteq> [] \<or> terminated s"
  shows "length (gen_processes s) = nat (num_output_images gen_req) \<and>
         list_all finished (gen_processes s) \<and> terminated s \<and>
         (\<forall>ev. step ext gen_req s ev = s)"
proof -
  have inv: "batch_inv ext gen_req s" using assms(1) by (simp add: batch_inv_run)
  have t: "terminated s"
  proof (rule ccontr)
    assume "\<not> terminated s"
    from not_terminated_untouched [OF inv this] assms(2) this show False
      by (simp add: new_responder_def)
  qed
  from terminated_outcome [OF inv t] terminated_step [OF t, of ext gen_req] t show ?thesis
    by (simp add: launched_def)
qed

theorem join_barrier_witness:
  "sink (responder (run stub_externals \<lparr>num_output_images = 3\<rparr>
       [Start 5, Complete 0 (Some ''a''), Complete 1 None, Complete 2 (Some ''c''), Resume 7])) \<noteq> [] \<and>
   length (gen_processes (run stub_externals \<lparr>num_output_images = 3\<rparr>
       [Start 5, Complete 0 (Some ''a''), Complete 1 None, Complete 2 (Some ''c''), Resume 7])) = 3 \<and>
   list_all finished (gen_processes (run stub_externals \<lparr>num_output_images = 3\<rparr>
       [Start 5, Complete 0 (Some ''a''), Complete 1 None, Complete 2 (Some ''c''), Resume 7]))"
  using join_barrier [OF refl, of stub_externals "\<lparr>num_output_images = 3\<rparr>"
      "[Start 5, Complete 0 (Some ''a''), Complete 1 None, Complete 2 (Some ''c''), Resume 7]"]
  unfolding example_missing
  by simp

text \<open>
  Claim C4, as stated: whenever an item finishes with an empty output slot, the failure
  propagates as the error that names the failed index. In a batch of two whose first
  image the encoder refuses and whose second item has no output, the loop of lines
  221--228 stops at the first image: the encoder's exception leaves \<open>run\<close>, and no
  \<open>Exception\<close> naming an index does.
\<close>

theorem missing_output_error_counterexample:
  "terminated (run stub_externals \<lparr>num_output_images = 2\<rparr>
       [Start 5, Complete 0 (Some ''bad''), Complete 1 None, Resume 7]) \<and>
   output' (gen_processes (run stub_externals \<lparr>num_output_images = 2\<rparr>
       [Start 5, Complete 0 (Some ''bad''), Complete 1 None, Resume 7]) ! 1) = None \<and>
   pc (run stub_externals \<lparr>num_output_images = 2\<rparr>
       [Start 5, Complete 0 (Some ''bad''), Complete 1 None, Resume 7]) =
     Raised (External ''cannot encode'') \<and>
   (\<forall>m. pc (run stub_externals \<lparr>num_output_images = 2\<rparr>
       [Start 5, Complete 0 (Some ''bad''), Complete 1 None, Resume 7]) \<noteq> Raised (Exception m))"
  unfolding example_encoder_before_missing by simp

text \<open>
  Claim C4, amended. When \<open>run\<close> has come to its end and the output slot of process \<open>k\<close>
  is empty, no success response was sent or delivered, the sink holds exactly the one
  failure response of \<open>ensure_response\<close>, every process has finished, and an exception
  left \<open>run\<close>. When \<open>k\<close> is the first empty slot and the encoder accepted the images
  before it, that exception is \<open>Exception\<close> with the message
  \<open>Expected output for process k but got `None`\<close>.
\<close>

theorem missing_output_fails_batch:
  assumes "s = run ext gen_req schedule" and "terminated s"
    and "k < length (gen_processes s)" and "output' (gen_processes s ! k) = None"
  shows "(\<forall>r. Delivered r \<notin> set (sink (responder s))) \<and>
         (\<forall>r. SendResponse r \<notin> set (calls (responder s))) \<and>
         sink (responder s) = [ErrorResponse] \<and>
         calls (responder s) = [EnsureResponse] \<and>
         list_all finished (gen_processes s) \<and>
         (\<exists>e. pc s = Raised e) \<and>
         ((\<forall>j < k. \<exists>out png. output' (gen_processes s ! j) = Some out \<and>
                              png_from ext (image out) = Inr png) \<longrightarrow>
          pc s = Raised (Exception (''Expected output for process '' @ str_nat k
                                    @ '' but got `None`'')))"
proof -
  have inv: "batch_inv ext gen_req s" using assms(1) by (simp add: batch_inv_run)
  from terminated_outcome [OF inv assms(2)] obtain t0 t1 raised where
    fin: "list_all finished (gen_processes s)"
    and rf: "respond_finally ext t0 t1 (gen_processes s) new_responder = (responder s, raised)"
    and pc: "pc s = (case raised of None \<Rightarrow> Returned | Some e \<Rightarrow> Raised e)"
    by blast
  from respond_finally_missing [OF rf assms(3,4)] obtain e where e: "raised = Some e"
    by blast
  from respond_finally_raised [OF rf [unfolded e]]
  have R: "calls (responder s) = [EnsureResponse]" "sink (responder s) = [ErrorResponse]"
    by simp_all
  have "pc s = Raised (Exception (''Expected output for process '' @ str_nat k @ '' but got `None`''))"
    if "\<forall>j < k. \<exists>out png. output' (gen_processes s ! j) = Some out \<and>
                              png_from ext (image out) = Inr png"
    using respond_finally_first_missing [OF rf assms(3,4) that] pc by simp
  with R fin e pc show ?thesis by simp
qed

theorem missing_output_fails_batch_witness:
  "terminated (run stub_externals \<lparr>num_output_images = 3\<rparr>
       [Start 5, Complete 0 (Some ''a''), Complete 1 None, Complete 2 (Some ''c''), Resume 7]) \<and>
   Suc 0 < length (gen_processes (run stub_externals \<lparr>num_output_images = 3\<rparr>
       [Start 5, Complete 0 (Some ''a''), Complete 1 None, Complete 2 (Some ''c''), Resume 7])) \<and>
   output' (gen_processes (run stub_externals \<lparr>num_output_images = 3\<rparr>
       [Start 5, Complete 0 (Some ''a''), Complete 1 None, Complete 2 (Some ''c''), Resume 7]) ! Suc 0) = None \<and>
   output' (gen_processes (run stub_externals \<lparr>num_output_images = 3\<rparr>
       [Start 5, Complete 0 (Some ''a''), Complete 1 None, Complete 2 (Some ''c''), Resume 7]) ! 0) =
     Some (TextToImageInferenceOutput ''a'') \<and>
   png_from stub_externals ''a'' = Inr ''png:a'' \<and>
   pc (run stub_externals \<lparr>num_output_images = 3\<rparr>
       [Start 5, Complete 0 (Some ''a''), Complete 1 None, Complete 2 (Some ''c''), Resume 7]) =
     Raised (Exception ''Expected output for process 1 but got `None`'') \<and>
   sink (responder (run stub_externals \<lparr>num_output_images = 3\<rparr>
       [Start 5, Complete 0 (Some ''a''), Complete 1 None, Complete 2 (Some ''c''), Resume 7])) =
     [ErrorResponse]"
  using missing_output_fails_batch [OF refl, of stub_externals "\<lparr>num_output_images = 3\<rparr>"
      "[Start 5, Complete 0 (Some ''a''), Complete 1 None, Complete 2 (Some ''c''), Resume 7]" "Suc 0"]
  unfolding example_missing
  by (simp add: stub_externals_def)



text \<open>
  Claim C10. A response image that is present but falsy is treated as an absent one:
  \<open>GenerateImageProcess.run\<close> stores \<open>None\<close> in both cases and the completion events lead
  to the same state. A batch in which a pending process completes with such an image
  and which then comes to its end holds no output for that process, delivers the failure
  response only and raises.
\<close>

theorem falsy_image_is_missing_output:
  assumes "\<not> truthy ext img"
    and "s = run ext gen_req schedule" and "pc s = AwaitingGather t0"
    and "i < length (gen_processes s)" and "\<not> finished (gen_processes s ! i)"
    and "s' = foldl (step ext gen_req) (step ext gen_req s (Complete i (Some img))) rest"
    and "terminated s'"
  shows "GenerateImageProcess_run ext (Some img) p = GenerateImageProcess_run ext None p \<and>
         output' (GenerateImageProcess_run ext (Some img) p) = None \<and>
         step ext gen_req s (Complete i (Some img)) = step ext gen_req s (Complete i None) \<and>
         output' (gen_processes s' ! i) = None \<and>
         sink (responder s') = [ErrorResponse] \<and>
         (\<forall>r. Delivered r \<notin> set (sink (responder s'))) \<and>
         (\<exists>e. pc s' = Raised e)"
proof -
  let ?s1 = "step ext gen_req s (Complete i (Some img))"
  have same: "GenerateImageProcess_run ext (Some img) q = GenerateImageProcess_run ext None q" for q
    using assms(1) by (simp add: GenerateImageProcess_run_def)
  have none: "output' (GenerateImageProcess_run ext (Some img) q) = None" for q
    using assms(1) by (simp add: GenerateImageProcess_run_def)
  have steps: "?s1 = step ext gen_req s (Complete i None)"
    by (simp add: step_def same split: pc.splits)
  have inv: "batch_inv ext gen_req s" using assms(2) by (simp add: batch_inv_run)
  have inv1: "batch_inv ext gen_req ?s1" using inv by (rule batch_inv_step)
  have procs1: "gen_processes ?s1 =
      (gen_processes s)[i := GenerateImageProcess_run ext (Some img) (gen_processes s ! i)]"
    using assms(3,4,5) by (simp add: step_def)
  have i1: "i < length (gen_processes ?s1)" using assms(4) procs1 by simp
  have at1: "gen_processes ?s1 ! i = GenerateImageProcess_run ext (Some img) (gen_processes s ! i)"
    using assms(4) procs1 by simp
  have fin1: "finished (gen_processes ?s1 ! i)" using at1 by simp
  from finished_foldl [OF inv1 i1 fin1, of rest] assms(6)
  have len': "i < length (gen_processes s')" and at': "gen_processes s' ! i = gen_processes ?s1 ! i"
    using i1 by simp_all
  have out': "output' (gen_processes s' ! i) = None" using at' at1 none by simp
  have inv': "batch_inv ext gen_req s'" using inv1 assms(6) by (simp add: batch_inv_foldl)
  from terminated_outcome [OF inv' assms(7)] obtain t0' t1 raised where
    rf: "respond_finally ext t0' t1 (gen_processes s') new_responder = (responder s', raised)"
    and pc: "pc s' = (case raised of None \<Rightarrow> Returned | Some e \<Rightarrow> Raised e)"
    by blast
  from respond_finally_missing [OF rf len' out'] obtain e where e: "raised = Some e"
    by blast
  from respond_finally_raised [OF rf [unfolded e]] have "sink (responder s') = [ErrorResponse]"
    by simp
  with same none steps out' e pc show ?thesis by simp
qed

theorem falsy_image_is_missing_output_witness:
  "\<not> truthy stub_externals '''' \<and>
   pc (run stub_externals \<lparr>num_output_images = 3\<rparr> [Start 5, Complete 0 (Some ''a''), Resume 6]) =
     AwaitingGather 5 \<and>
   Suc 0 < length (gen_processes (run stub_externals \<lparr>num_output_images = 3\<rparr>
         [Start 5, Complete 0 (Some ''a''), Resume 6])) \<and>
   \<not> finished (gen_processes (run stub_externals \<lparr>num_output_images = 3\<rparr>
         [Start 5, Complete 0 (Some ''a''), Resume 6]) ! Suc 0) \<and>
   terminated (foldl (step stub_externals \<lparr>num_output_images = 3\<rparr>)
      (step stub_externals \<lparr>num_output_images = 3\<rparr>
         (run stub_externals \<lparr>num_output_images = 3\<rparr> [Start 5, Complete 0 (Some ''a''), Resume 6])
         (Complete (Suc 0) (Some '''')))
      [Complete 2 (Some ''c''), Resume 7]) \<and>
   sink (responder (foldl (step stub_externals \<lparr>num_output_images = 3\<rparr>)
      (step stub_externals \<lparr>num_output_images = 3\<rparr>
         (run stub_externals \<lparr>num_output_images = 3\<rparr> [Start 5, Complete 0 (Some ''a''), Resume 6])
         (Complete (Suc 0) (Some '''')))
      [Complete 2 (Some ''c''), Resume 7])) = [ErrorResponse]"
proof -
  have falsy: "\<not> truthy stub_externals ''''" by (simp add: stub_externals_def)
  have ex: "foldl (step stub_externals \<lparr>num_output_images = 3\<rparr>)
     (step stub_externals \<lparr>num_output_images = 3\<rparr>
        (run stub_externals \<lparr>num_output_images = 3\<rparr> [Start 5, Complete 0 (Some ''a''), Resume 6])
        (Complete (Suc 0) (Some '''')))
     [Complete 2 (Some ''c''), Resume 7] =
   \<lparr>pc = Raised (Exception ''Expected output for process 1 but got `None`''),
    gen_processes =
      [\<lparr>index = 0, output' = Some (TextToImageInferenceOutput ''a''), finished = True\<rparr>,
       \<lparr>index = 1, output' = None, finished = True\<rparr>,
       \<lparr>index = 2, output' = Some (TextToImageInferenceOutput ''c''), finished = True\<rparr>],
    responder = \<lparr>calls = [EnsureResponse], sink = [ErrorResponse]\<rparr>\<rparr>"
    using example_falsy by simp
  have pend: "pc (run stub_externals \<lparr>num_output_images = 3\<rparr> [Start 5, Complete 0 (Some ''a''), Resume 6]) =
     AwaitingGather 5"
    "Suc 0 < length (gen_processes (run stub_externals \<lparr>num_output_images = 3\<rparr>
         [Start 5, Complete 0 (Some ''a''), Resume 6]))"
    "\<not> finished (gen_processes (run stub_externals \<lparr>num_output_images = 3\<rparr>
         [Start 5, Complete 0 (Some ''a''), Resume 6]) ! Suc 0)"
    unfolding example_pending by simp_all
  have ended: "terminated (foldl (step stub_externals \<lparr>num_output_images = 3\<rparr>)
      (step stub_externals \<lparr>num_output_images = 3\<rparr>
         (run stub_externals \<lparr>num_output_images = 3\<rparr> [Start 5, Complete 0 (Some ''a''), Resume 6])
         (Complete (Suc 0) (Some '''')))
      [Complete 2 (Some ''c''), Resume 7])"
    unfolding ex by simp
  from falsy_image_is_missing_output [OF falsy refl pend refl ended, of "GenerateImageProcess_init 1"]
  have "sink (responder (foldl (step stub_externals \<lparr>num_output_images = 3\<rparr>)
      (step stub_externals \<lparr>num_output_images = 3\<rparr>
         (run stub_externals \<lparr>num_output_images = 3\<rparr> [Start 5, Complete 0 (Some ''a''), Resume 6])
         (Complete (Suc 0) (Some '''')))
      [Complete 2 (Some ''c''), Resume 7])) = [ErrorResponse]"
    by (elim conjE)
  with falsy pend ended show ?thesis by blast
qed

end
